theory Spec2Isabelle
  imports Complex_Main
begin

section \<open>JavaScript strings and values\<close>

text \<open>
  A JavaScript string is modelled as a \<^typ>\<open>string\<close>: one \<^typ>\<open>char\<close> per code unit, so the
  model covers the code units below 256 (ASCII and Latin-1). The built-in string methods
  the sources call are written out below under their JavaScript names.
\<close>

definition startsWith :: "string \<Rightarrow> string \<Rightarrow> bool" where
  "startsWith s p = (take (length p) s = p)"

definition endsWith :: "string \<Rightarrow> string \<Rightarrow> bool" where
  "endsWith s p = (length p \<le> length s \<and> drop (length s - length p) s = p)"

text \<open>\<^verbatim>\<open>s.includes(p)\<close>: \<open>p\<close> occurs somewhere in \<open>s\<close>.\<close>

fun includes_str :: "string \<Rightarrow> string \<Rightarrow> bool" where
  "includes_str [] p = (p = [])"
| "includes_str (c # cs) p = (startsWith (c # cs) p \<or> includes_str cs p)"

text \<open>
  \<^verbatim>\<open>s.replace(p, r)\<close> with a string pattern: only the first occurrence of \<open>p\<close> is
  replaced, wherever it stands; a string without \<open>p\<close> comes back unchanged.
\<close>

fun replace :: "string \<Rightarrow> string \<Rightarrow> string \<Rightarrow> string" where
  "replace [] p r = (if p = [] then r else [])"
| "replace (c # cs) p r =
     (if startsWith (c # cs) p then r @ drop (length p) (c # cs) else c # replace cs p r)"

text \<open>
  \<^verbatim>\<open>toLowerCase\<close> on the code units below 256: the ASCII capitals and the Latin-1 capitals
  (\<open>0xC0\<close> to \<open>0xDE\<close> without the multiplication sign \<open>0xD7\<close>) move up by 32.
\<close>

definition toLowerCase_char :: "char \<Rightarrow> char" where
  "toLowerCase_char c =
     (let n = (of_char c :: nat) in
      if (65 \<le> n \<and> n \<le> 90) \<or> (192 \<le> n \<and> n \<le> 222 \<and> n \<noteq> 215)
      then char_of (n + 32) else c)"

definition toLowerCase :: "string \<Rightarrow> string" where
  "toLowerCase s = map toLowerCase_char s"

text \<open>The regular expression class \<^verbatim>\<open>\d\<close> and the characters \<^verbatim>\<open>.\<close> does not match.\<close>

definition isDigit :: "char \<Rightarrow> bool" where
  "isDigit c = (c \<in> set ''0123456789'')"

definition isLineTerminator :: "char \<Rightarrow> bool" where
  "isLineTerminator c = (c = CHR 0x0A \<or> c = CHR 0x0D)"

text \<open>
  \<^verbatim>\<open>parseInt(ds, 10)\<close> on a string of decimal digits (all the sources pass to it): the
  number the digits denote. JavaScript gives exactly this number up to \<open>2\<^sup>5\<^sup>3\<close>; a longer
  run of digits it rounds to a double, which the model does not follow.
\<close>

definition digit_val :: "char \<Rightarrow> nat" where
  "digit_val c = of_char c - 48"

definition parseInt :: "string \<Rightarrow> nat" where
  "parseInt ds = foldl (\<lambda>a c. 10 * a + digit_val c) 0 ds"

text \<open>Decimal notation of a number, as a template literal prints it.\<close>

fun show_nat :: "nat \<Rightarrow> string" where
  "show_nat n =
     (if n < 10 then [char_of (48 + n)] else show_nat (n div 10) @ [char_of (48 + n mod 10)])"

declare show_nat.simps [simp del]

text \<open>
  A decoded JSON value. A number is given by the text JavaScript prints for it
  (\<^verbatim>\<open>String(n)\<close>: \<^verbatim>\<open>0\<close> for zero, \<^verbatim>\<open>42\<close>, \<^verbatim>\<open>1.5\<close>, \<^verbatim>\<open>1e+21\<close>), which is all the sources
  use of one. An object is its list of members in the order of the text.
\<close>

datatype jsval =
    JNull
  | JBool bool
  | JNum string
  | JStr string
  | JArr "jsval list"
  | JObj "(string \<times> jsval) list"

text \<open>
  Reading a property with \<^verbatim>\<open>v?.k\<close>, for the property names the sources read (\<open>error\<close>,
  \<open>detail\<close>, \<open>status\<close>): \<open>None\<close> is \<^verbatim>\<open>undefined\<close>. Only an object has such a member;
  of a repeated member the last one counts.
\<close>

fun get_prop :: "jsval \<Rightarrow> string \<Rightarrow> jsval option" where
  "get_prop (JObj kvs) k = map_of (rev kvs) k"
| "get_prop _ k = None"

fun truthy :: "jsval option \<Rightarrow> bool" where
  "truthy None = False"
| "truthy (Some JNull) = False"
| "truthy (Some (JBool b)) = b"
| "truthy (Some (JNum printed)) = (printed \<noteq> ''0'')"
| "truthy (Some (JStr s)) = (s \<noteq> [])"
| "truthy (Some (JArr xs)) = True"
| "truthy (Some (JObj kvs)) = True"

fun join :: "string \<Rightarrow> string list \<Rightarrow> string" where
  "join sep [] = []"
| "join sep [x] = x"
| "join sep (x # y # ys) = x @ sep @ join sep (y # ys)"

text \<open>
  The conversion to a string that \<^verbatim>\<open>new Error(v)\<close> applies to its argument; \<open>None\<close> when
  the conversion raises a \<^verbatim>\<open>TypeError\<close>. An object without a \<^verbatim>\<open>toString\<close> member of its own
  prints as \<^verbatim>\<open>[object Object]\<close>. A \<^verbatim>\<open>toString\<close> member of its own hides the inherited
  method and is no function, being decoded JSON; the inherited \<^verbatim>\<open>valueOf\<close>, or a member
  of that name, gives no primitive value either, so the conversion raises. An array joins
  the strings of its elements with commas, \<^verbatim>\<open>null\<close> counting as the empty string.
\<close>

fun js_toString :: "jsval \<Rightarrow> string option"
  and js_toString_elems :: "jsval list \<Rightarrow> string list option" where
  "js_toString JNull = Some ''null''"
| "js_toString (JBool b) = Some (if b then ''true'' else ''false'')"
| "js_toString (JNum printed) = Some printed"
| "js_toString (JStr s) = Some s"
| "js_toString (JArr xs) =
     (case js_toString_elems xs of Some parts \<Rightarrow> Some (join '','' parts) | None \<Rightarrow> None)"
| "js_toString (JObj kvs) =
     (if ''toString'' \<in> set (map fst kvs) then None else Some ''[object Object]'')"
| "js_toString_elems [] = Some []"
| "js_toString_elems (x # xs) =
     (case (if x = JNull then Some [] else js_toString x) of
        None \<Rightarrow> None
      | Some part \<Rightarrow>
          (case js_toString_elems xs of None \<Rightarrow> None | Some parts \<Rightarrow> Some (part # parts)))"

text \<open>
  The message of the \<^verbatim>\<open>TypeError\<close> that a failed conversion raises. The wording is the
  engine's; this is V8's.
\<close>

definition CANNOT_CONVERT :: string where
  "CANNOT_CONVERT = ''Cannot convert object to primitive value''"

text \<open>
  A thrown value: an \<^verbatim>\<open>Error\<close> object with its message, or anything else.
\<close>

datatype thrown = JsError string | NonError jsval

section \<open>Constants of the upload component\<close>

definition MAX_RETRIES :: nat where
  "MAX_RETRIES = 30"

definition RETRY_INTERVAL :: nat where
  "RETRY_INTERVAL = 2000"

definition MAX_FILE_SIZE :: nat where
  "MAX_FILE_SIZE = 10 * 1024 * 1024"

definition FILE_TOO_LARGE :: string where
  "FILE_TOO_LARGE = ''File size exceeds 10MB limit''"

definition INVALID_TYPE :: string where
  "INVALID_TYPE = ''Please upload a PDF file''"

definition CORRUPTED_PDF :: string where
  "CORRUPTED_PDF = ''The PDF file appears to be corrupted''"

definition EMPTY_PDF :: string where
  "EMPTY_PDF = ''No text content could be extracted from the PDF''"

definition UPLOAD_FAILED :: string where
  "UPLOAD_FAILED = ''Failed to upload document''"

definition PROCESSING_FAILED :: string where
  "PROCESSING_FAILED = ''Failed to process document''"

definition PROCESSING_TIMEOUT :: string where
  "PROCESSING_TIMEOUT = ''Processing timed out''"

definition CONNECTION_ERROR :: string where
  "CONNECTION_ERROR = ''Connection error. Please check your internet connection''"

text \<open>The messages of the question form (\<^verbatim>\<open>QueryInterface.tsx\<close>).\<close>

definition NETWORK_ERROR :: string where
  "NETWORK_ERROR = ''Failed to connect to the server. Please check your internet connection.''"

definition SERVER_ERROR :: string where
  "SERVER_ERROR = ''An error occurred while processing your question. Please try again.''"

definition DOC_NOT_FOUND :: string where
  "DOC_NOT_FOUND = ''The document was not found or has not been processed yet.''"

section \<open>validateFile\<close>

text \<open>The two properties of a browser \<^verbatim>\<open>File\<close> that the validator reads.\<close>

record File =
  name :: string
  size' :: nat

definition validateFile :: "File \<Rightarrow> string option" where
  "validateFile f =
     (if \<not> endsWith (toLowerCase (name f)) ''.pdf'' then Some INVALID_TYPE
      else if size' f > MAX_FILE_SIZE then Some FILE_TOO_LARGE
      else None)"

text \<open>
  What "ends with \<^verbatim>\<open>.pdf\<close>, whatever the case of its letters" means, read off the last
  four characters.
\<close>

definition pdf_extension :: "string \<Rightarrow> bool" where
  "pdf_extension s =
     (case rev s of
        c4 # c3 # c2 # c1 # _ \<Rightarrow>
          c1 = CHR ''.'' \<and> c2 \<in> {CHR ''p'', CHR ''P''} \<and> c3 \<in> {CHR ''d'', CHR ''D''}
          \<and> c4 \<in> {CHR ''f'', CHR ''F''}
      | _ \<Rightarrow> False)"

section \<open>parseProgressFromStatus\<close>

text \<open>
  The regular expression \<^verbatim>\<open>/processing: .* \((\d+)%\)/\<close>, matched as the backtracking
  matcher does. \<open>match_tail\<close> is the part after \<^verbatim>\<open>.*\<close>: a blank, an opening parenthesis,
  the longest run of digits (the group), a percent sign and a closing parenthesis; it
  returns the group. No shorter run of digits can match, since the next character would
  be a digit and not the percent sign.
\<close>

definition match_tail :: "string \<Rightarrow> string option" where
  "match_tail r =
     (if startsWith r '' ('' then
        (let ds = takeWhile isDigit (drop 2 r); rest = dropWhile isDigit (drop 2 r)
         in if ds \<noteq> [] \<and> startsWith rest ''%)'' then Some ds else None)
      else None)"

text \<open>
  \<^verbatim>\<open>.*\<close> is greedy: it first takes one more character (any but a line terminator) and
  gives it back only when the rest of the pattern fails after it.
\<close>

fun match_star :: "string \<Rightarrow> string option" where
  "match_star [] = match_tail []"
| "match_star (c # cs) =
     (if isLineTerminator c then match_tail (c # cs)
      else (case match_star cs of Some ds \<Rightarrow> Some ds | None \<Rightarrow> match_tail (c # cs)))"

definition match_at :: "string \<Rightarrow> string option" where
  "match_at s = (if startsWith s ''processing: '' then match_star (drop 12 s) else None)"

text \<open>\<^verbatim>\<open>status.match(re)\<close> tries every start position from the left.\<close>

fun regex_match :: "string \<Rightarrow> string option" where
  "regex_match [] = match_at []"
| "regex_match (c # cs) =
     (case match_at (c # cs) of Some ds \<Rightarrow> Some ds | None \<Rightarrow> regex_match cs)"

text \<open>
  The result is \<^verbatim>\<open>number | null\<close>: \<open>None\<close> is \<^verbatim>\<open>null\<close>. The quotient is kept as a rational
  number; it stands for the double nearest to it, which is what JavaScript's division
  gives for digits up to \<open>2\<^sup>5\<^sup>3\<close>.
\<close>

definition parseProgressFromStatus :: "string \<Rightarrow> rat option" where
  "parseProgressFromStatus status =
     (case regex_match status of
        Some ds \<Rightarrow> Some (of_nat (parseInt ds) / 100)
      | None \<Rightarrow> None)"




section \<open>getErrorMessage\<close>

text \<open>
  What the classifiers read of a caught value: \<^verbatim>\<open>error?.response?.status\<close>,
  \<^verbatim>\<open>error?.response?.data?.detail\<close> and \<^verbatim>\<open>error?.message\<close>, each \<open>None\<close> when
  \<^verbatim>\<open>undefined\<close>; the two texts are strings.
\<close>

record failure =
  response_status :: "nat option"
  response_detail :: "string option"
  message :: "string option"

text \<open>\<^verbatim>\<open>a || b\<close> on texts: the empty string is falsy, as \<^verbatim>\<open>undefined\<close> is.\<close>

definition or_else :: "string option \<Rightarrow> string option \<Rightarrow> string option" where
  "or_else a b = (case a of Some s \<Rightarrow> (if s = [] then b else Some s) | None \<Rightarrow> b)"

definition errorMessage :: "failure \<Rightarrow> string" where
  "errorMessage e =
     (case or_else (response_detail e) (message e) of
        Some s \<Rightarrow> (if s = [] then ''Unknown error'' else s)
      | None \<Rightarrow> ''Unknown error'')"

text \<open>The classifier of the upload component (\<^verbatim>\<open>DocumentUploader.tsx\<close>).\<close>

definition getErrorMessage :: "failure \<Rightarrow> string" where
  "getErrorMessage e =
     (if response_status e = Some 413 then FILE_TOO_LARGE
      else if includes_str (errorMessage e) ''corrupted'' then CORRUPTED_PDF
      else if includes_str (errorMessage e) ''no text content'' then EMPTY_PDF
      else if includes_str (errorMessage e) ''network'' then CONNECTION_ERROR
      else errorMessage e)"

text \<open>The classifier of the question form (\<^verbatim>\<open>QueryInterface.tsx\<close>).\<close>

definition getErrorMessage_query :: "failure \<Rightarrow> string" where
  "getErrorMessage_query e =
     (if response_status e = Some 404 then DOC_NOT_FOUND
      else if response_status e = Some 400 then
        (case or_else (response_detail e) (Some SERVER_ERROR) of
           Some s \<Rightarrow> s | None \<Rightarrow> SERVER_ERROR)
      else if (case message e of Some m \<Rightarrow> includes_str m ''network'' | None \<Rightarrow> False)
        then NETWORK_ERROR
      else SERVER_ERROR)"

section \<open>The transport layer\<close>

text \<open>
  \<^verbatim>\<open>fetchWithErrorHandling\<close> awaits \<^verbatim>\<open>fetch\<close>, which rejects with a thrown value or
  resolves to a response; of a response it reads the status and, with
  \<^verbatim>\<open>response.json()\<close>, the decoded body, which may itself reject. The request (URL,
  method, headers, body) is what the server answers to; the model takes the answer as
  its argument.
\<close>

record response =
  status :: nat
  json :: "thrown + jsval"

definition ok :: "response \<Rightarrow> bool" where
  "ok r = (200 \<le> status r \<and> status r \<le> 299)"

datatype fetch_outcome = Rejects thrown | Resolves response

text \<open>\<^verbatim>\<open>a || b\<close> on values.\<close>

definition or_js :: "jsval option \<Rightarrow> jsval option \<Rightarrow> jsval option" where
  "or_js a b = (if truthy a then a else b)"

text \<open>
  The message of the error thrown for a response that is not ok: the argument of
  \<^verbatim>\<open>new Error(...)\<close> as a string, or the message of the \<^verbatim>\<open>TypeError\<close> when that
  argument cannot be converted. \<^verbatim>\<open>response.json().catch(() => null)\<close> turns a body that
  does not decode into \<^verbatim>\<open>null\<close>.
\<close>

definition error_text :: "response \<Rightarrow> string" where
  "error_text r =
     (let errorData = (case json r of Inl _ \<Rightarrow> JNull | Inr v \<Rightarrow> v)
      in case or_js (or_js (get_prop errorData ''error'') (get_prop errorData ''detail''))
                (Some (JStr (''HTTP error! status: '' @ show_nat (status r)))) of
           Some v \<Rightarrow> (case js_toString v of Some m \<Rightarrow> m | None \<Rightarrow> CANNOT_CONVERT)
         | None \<Rightarrow> [])"

text \<open>The \<^verbatim>\<open>try\<close> block: \<open>Inl\<close> is a value thrown in it.\<close>

definition try_block :: "fetch_outcome \<Rightarrow> thrown + jsval" where
  "try_block fo =
     (case fo of
        Rejects t \<Rightarrow> Inl t
      | Resolves r \<Rightarrow>
          if \<not> ok r then Inl (JsError (error_text r))
          else if status r = 204 then Inr JNull
          else json r)"

text \<open>The \<^verbatim>\<open>catch\<close> block wraps an \<^verbatim>\<open>Error\<close> and throws anything else again.\<close>

definition fetchWithErrorHandling :: "fetch_outcome \<Rightarrow> thrown + jsval" where
  "fetchWithErrorHandling fo =
     (case try_block fo of
        Inl (JsError m) \<Rightarrow> Inl (JsError (''API request failed: '' @ m))
      | Inl (NonError v) \<Rightarrow> Inl (NonError v)
      | Inr v \<Rightarrow> Inr v)"



definition deleteDocument :: "fetch_outcome \<Rightarrow> thrown + unit" where
  "deleteDocument fo =
     (case fetchWithErrorHandling fo of Inl t \<Rightarrow> Inl t | Inr _ \<Rightarrow> Inr ())"


section \<open>The upload component: checkStatus and handleFileUpload\<close>

text \<open>The five state variables of \<^verbatim>\<open>DocumentUploader\<close>, with their initial values.\<close>

record uploader =
  isUploading :: bool
  uploadProgress :: string
  progressPercent :: rat
  retryCount :: nat
  error :: "string option"

definition initial_uploader :: uploader where
  "initial_uploader =
     \<lparr>isUploading = False, uploadProgress = [], progressPercent = 0, retryCount = 0,
      error = None\<rparr>"

text \<open>
  One run of \<^verbatim>\<open>checkStatus\<close>. Its arguments are the value of \<^verbatim>\<open>retryCount\<close> that the
  closure reads, what \<^verbatim>\<open>await checkDocumentStatus(document_id)\<close> gave, and the component
  state; it returns the new state, the document handed to \<^verbatim>\<open>onDocumentProcessed\<close> (if
  any) and the delay of the timer it set (if any).

  \<^verbatim>\<open>retryCount\<close> is a constant of the render in which \<^verbatim>\<open>handleFileUpload\<close> was created.
  \<^verbatim>\<open>checkStatus\<close> is a closure made inside that call, and the timer runs the same closure
  again, so every run of one upload reads the same value, while
  \<^verbatim>\<open>setRetryCount(prev => prev + 1)\<close> updates the state variable.
\<close>

definition checkStatus_catch :: "nat \<Rightarrow> uploader \<Rightarrow> uploader \<times> jsval option \<times> nat option" where
  "checkStatus_catch retryCount_read st =
     (if retryCount_read \<ge> MAX_RETRIES then
        (st\<lparr>isUploading := False, error := Some PROCESSING_FAILED\<rparr>, None, None)
      else (st\<lparr>retryCount := retryCount st + 1\<rparr>, None, Some RETRY_INTERVAL))"

text \<open>
  Reading \<^verbatim>\<open>status.status\<close> of \<^verbatim>\<open>null\<close>, or calling \<^verbatim>\<open>startsWith\<close> on a status that is not
  a string, raises a \<^verbatim>\<open>TypeError\<close> inside the \<^verbatim>\<open>try\<close> block: these answers take the
  \<^verbatim>\<open>catch\<close> branch, as a rejected request does.
\<close>

definition checkStatus ::
  "nat \<Rightarrow> thrown + jsval \<Rightarrow> uploader \<Rightarrow> uploader \<times> jsval option \<times> nat option" where
  "checkStatus retryCount_read res st =
     (case res of
        Inl t \<Rightarrow> checkStatus_catch retryCount_read st
      | Inr v \<Rightarrow>
          (case get_prop v ''status'' of
             Some (JStr s) \<Rightarrow>
               if s = ''completed'' then
                 (st\<lparr>isUploading := False, progressPercent := 1\<rparr>, Some v, None)
               else if startsWith s ''error'' then
                 (st\<lparr>isUploading := False, error := Some (replace s ''error: '' [])\<rparr>,
                  None, None)
               else if retryCount_read \<ge> MAX_RETRIES then
                 (st\<lparr>isUploading := False, error := Some PROCESSING_TIMEOUT\<rparr>, None, None)
               else
                 (let st1 = (case parseProgressFromStatus s of
                               Some progress \<Rightarrow> st\<lparr>progressPercent := progress\<rparr>
                             | None \<Rightarrow> st)
                  in (st1\<lparr>uploadProgress := s, retryCount := retryCount st1 + 1\<rparr>,
                      None, Some RETRY_INTERVAL))
           | _ \<Rightarrow> checkStatus_catch retryCount_read st))"

text \<open>A status answer whose \<open>status\<close> member is the string \<open>s\<close>.\<close>

definition report :: "string \<Rightarrow> thrown + jsval" where
  "report s = Inr (JObj [(''status'', JStr s)])"

text \<open>
  The polling loop: the first check runs at once, each later one when the timer set by the
  one before fires. The list holds what the successive status requests give. The result
  is the state, the number of status requests answered, and whether the loop goes on
  (a further check is in flight or scheduled) when the list is used up.
\<close>

fun poll :: "nat \<Rightarrow> (thrown + jsval) list \<Rightarrow> uploader \<Rightarrow> uploader \<times> nat \<times> bool" where
  "poll retryCount_read [] st = (st, 0, True)"
| "poll retryCount_read (res # rest) st =
     (case checkStatus retryCount_read res st of
        (st', _, None) \<Rightarrow> (st', 1, False)
      | (st', _, Some delay) \<Rightarrow>
          (case poll retryCount_read rest st' of (st'', n, scheduled) \<Rightarrow> (st'', Suc n, scheduled)))"

text \<open>
  An answer on which a check neither completes nor fails: a rejected request, an answer
  without a status string, or a status that is not \<^verbatim>\<open>completed\<close> and does not begin
  with \<^verbatim>\<open>error\<close>.
\<close>

definition keeps_polling :: "thrown + jsval \<Rightarrow> bool" where
  "keeps_polling res =
     (case res of
        Inl t \<Rightarrow> True
      | Inr v \<Rightarrow>
          (case get_prop v ''status'' of
             Some (JStr s) \<Rightarrow> s \<noteq> ''completed'' \<and> \<not> startsWith s ''error''
           | _ \<Rightarrow> True))"

text \<open>An answer that reports no percentage above 100.\<close>

definition percent_within :: "thrown + jsval \<Rightarrow> bool" where
  "percent_within res =
     (case res of
        Inl t \<Rightarrow> True
      | Inr v \<Rightarrow>
          (case get_prop v ''status'' of
             Some (JStr s) \<Rightarrow>
               (case regex_match s of Some ds \<Rightarrow> parseInt ds \<le> 100 | None \<Rightarrow> True)
           | _ \<Rightarrow> True))"

text \<open>
  What the \<^verbatim>\<open>try\<close> block of \<^verbatim>\<open>handleFileUpload\<close> gives before polling: a value was thrown
  (the upload request rejected, or taking \<^verbatim>\<open>document_id\<close> out of its result raised), of
  which the classifier reads a \<^typ>\<open>failure\<close>, or the upload returned.
\<close>

datatype upload_result = UploadThrew failure | UploadReturned

text \<open>
  \<^verbatim>\<open>handleFileUpload\<close> for a selected file: \<^verbatim>\<open>retryCount\<close> is read from the state the
  handler was rendered with, before \<^verbatim>\<open>setRetryCount(0)\<close>.
\<close>

definition handleFileUpload ::
  "uploader \<Rightarrow> File option \<Rightarrow> upload_result \<Rightarrow> (thrown + jsval) list \<Rightarrow> uploader \<times> nat \<times> bool" where
  "handleFileUpload st selected upload results =
     (case selected of
        None \<Rightarrow> (st, 0, False)
      | Some f \<Rightarrow>
          (let retryCount_read = retryCount st;
               st1 = st\<lparr>isUploading := True, uploadProgress := ''Validating document...'',
                        progressPercent := 0, retryCount := 0, error := None\<rparr>
           in case validateFile f of
                Some validationError \<Rightarrow>
                  (st1\<lparr>isUploading := False, error := Some validationError\<rparr>, 0, False)
              | None \<Rightarrow>
                  (let st2 = st1\<lparr>uploadProgress := ''Uploading document...'',
                                  progressPercent := 1 / 10\<rparr>
                   in case upload of
                        UploadThrew e \<Rightarrow>
                          (st2\<lparr>isUploading := False, error := Some (getErrorMessage e)\<rparr>,
                           0, False)
                      | UploadReturned \<Rightarrow> poll retryCount_read results st2)))"

subsection \<open>The component as an event-driven machine\<close>

text \<open>
  The events that reach the component are those it registers a callback for: the change
  event of the file input (\<^verbatim>\<open>onChange={handleFileUpload}\<close>, on an input that is
  \<^verbatim>\<open>disabled={isUploading}\<close>), the two awaited requests settling, and the timer set by
  \<^verbatim>\<open>setTimeout(checkStatus, RETRY_INTERVAL)\<close>, whose handle is dropped. The component
  has no effect with a cleanup, and \<^verbatim>\<open>App\<close> takes it off the page only once
  \<^verbatim>\<open>onDocumentProcessed\<close> has been called, when no check is scheduled. A phase with a
  number carries the \<^verbatim>\<open>retryCount\<close> the running upload's closure reads.
\<close>

datatype phase = Idle | Uploading nat | Scheduled nat | Checking nat

datatype event =
    FileSelected "File option"
  | UploadSettles upload_result
  | TimerFires
  | StatusSettles "thrown + jsval"

record component =
  ui :: uploader
  phase :: phase
  calls :: nat

definition initial_component :: component where
  "initial_component = \<lparr>ui = initial_uploader, phase = Idle, calls = 0\<rparr>"

fun enabled :: "component \<Rightarrow> event \<Rightarrow> bool" where
  "enabled cfg (FileSelected f) = (\<not> isUploading (ui cfg))"
| "enabled cfg (UploadSettles r) = (case phase cfg of Uploading c \<Rightarrow> True | _ \<Rightarrow> False)"
| "enabled cfg TimerFires = (case phase cfg of Scheduled c \<Rightarrow> True | _ \<Rightarrow> False)"
| "enabled cfg (StatusSettles res) = (case phase cfg of Checking c \<Rightarrow> True | _ \<Rightarrow> False)"

text \<open>\<open>calls\<close> counts the status requests sent. An event that is not enabled changes nothing.\<close>

fun step :: "component \<Rightarrow> event \<Rightarrow> component" where
  "step cfg (FileSelected None) = cfg"
| "step cfg (FileSelected (Some f)) =
     (if isUploading (ui cfg) then cfg
      else
        (let st1 = (ui cfg)\<lparr>isUploading := True, uploadProgress := ''Validating document...'',
                           progressPercent := 0, retryCount := 0, error := None\<rparr>
         in case validateFile f of
              Some validationError \<Rightarrow>
                cfg\<lparr>ui := st1\<lparr>isUploading := False, error := Some validationError\<rparr>\<rparr>
            | None \<Rightarrow>
                cfg\<lparr>ui := st1\<lparr>uploadProgress := ''Uploading document...'',
                                progressPercent := 1 / 10\<rparr>,
                    phase := Uploading (retryCount (ui cfg))\<rparr>))"
| "step cfg (UploadSettles r) =
     (case phase cfg of
        Uploading c \<Rightarrow>
          (case r of
             UploadThrew e \<Rightarrow>
               cfg\<lparr>ui := (ui cfg)\<lparr>isUploading := False, error := Some (getErrorMessage e)\<rparr>,
                   phase := Idle\<rparr>
           | UploadReturned \<Rightarrow> cfg\<lparr>phase := Checking c, calls := calls cfg + 1\<rparr>)
      | _ \<Rightarrow> cfg)"
| "step cfg TimerFires =
     (case phase cfg of
        Scheduled c \<Rightarrow> cfg\<lparr>phase := Checking c, calls := calls cfg + 1\<rparr>
      | _ \<Rightarrow> cfg)"
| "step cfg (StatusSettles res) =
     (case phase cfg of
        Checking c \<Rightarrow>
          (case checkStatus c res (ui cfg) of
             (st', _, None) \<Rightarrow> cfg\<lparr>ui := st', phase := Idle\<rparr>
           | (st', _, Some delay) \<Rightarrow> cfg\<lparr>ui := st', phase := Scheduled c\<rparr>)
      | _ \<Rightarrow> cfg)"

text \<open>Running a list of events; one that is not enabled cannot happen and ends the run.\<close>

fun run :: "component \<Rightarrow> event list \<Rightarrow> component option" where
  "run cfg [] = Some cfg"
| "run cfg (ev # evs) = (if enabled cfg ev then run (step cfg ev) evs else None)"

text \<open>
  The events of a polling loop whose status requests are answered by the given list: each
  answer settles the check in flight, and the timer then starts the next check.
\<close>

fun answers :: "(thrown + jsval) list \<Rightarrow> event list" where
  "answers [] = []"
| "answers (res # rest) = StatusSettles res # TimerFires # answers rest"

text \<open>
  While an upload is under way (any phase but \<open>Idle\<close>) \<open>isUploading\<close> is set, and so the
  file input is disabled.
\<close>

definition uploading_while_active :: "component \<Rightarrow> bool" where
  "uploading_while_active cfg = (phase cfg = Idle \<or> isUploading (ui cfg))"

section \<open>The application: handleDeleteDocument\<close>

text \<open>
  The state variables of \<^verbatim>\<open>App\<close>. The current document is the status answer that
  \<^verbatim>\<open>onDocumentProcessed\<close> (here \<^verbatim>\<open>setCurrentDocument\<close>) was given; its \<open>status\<close> member is
  the last state known of the document.
\<close>

record app =
  currentDocument :: "jsval option"
  isDeleting :: bool
  showMetadata :: bool

text \<open>
  The handler returns the new state and the texts shown with \<^verbatim>\<open>alert\<close>. Its second
  argument is the answer to the delete request.
\<close>

definition handleDeleteDocument :: "app \<Rightarrow> fetch_outcome \<Rightarrow> app \<times> string list" where
  "handleDeleteDocument st fo =
     (case currentDocument st of
        None \<Rightarrow> (st, [])
      | Some d \<Rightarrow>
          (let st1 = st\<lparr>isDeleting := True\<rparr>
           in case deleteDocument fo of
                Inr u \<Rightarrow> (st1\<lparr>currentDocument := None, isDeleting := False\<rparr>, [])
              | Inl t \<Rightarrow>
                  (st1\<lparr>isDeleting := False\<rparr>,
                   [''Failed to delete document. Please try again.''])))"

section \<open>Properties of the string functions\<close>

lemma startsWith_iff: "startsWith s p \<longleftrightarrow> (\<exists>t. s = p @ t)"
  unfolding startsWith_def
  by (metis append_eq_conv_conj append_take_drop_id)

lemma endsWith_iff: "endsWith s p \<longleftrightarrow> (\<exists>t. s = t @ p)"
  unfolding endsWith_def
  by (metis append_eq_conv_conj append_take_drop_id diff_add_inverse2 le_add2 length_append length_drop)

lemma of_char_toLowerCase_char:
  "(of_char (toLowerCase_char c) :: nat) =
     (let n = of_char c in
      if (65 \<le> n \<and> n \<le> 90) \<or> (192 \<le> n \<and> n \<le> 222 \<and> n \<noteq> 215) then n + 32 else n)"
  by (auto simp: toLowerCase_char_def Let_def)

lemma char_eq_nat: "(c = d) = ((of_char c :: nat) = of_char d)"
  by simp

lemma lower_dot: "toLowerCase_char c = CHR ''.'' \<longleftrightarrow> c = CHR ''.''"
  unfolding char_eq_nat[of _ "CHR ''.''"] of_char_toLowerCase_char
  by (auto simp: Let_def)

lemma lower_p: "toLowerCase_char c = CHR ''p'' \<longleftrightarrow> c = CHR ''p'' \<or> c = CHR ''P''"
  unfolding char_eq_nat[of _ "CHR ''p''"] char_eq_nat[of _ "CHR ''P''"] of_char_toLowerCase_char
  by (auto simp: Let_def)

lemma lower_d: "toLowerCase_char c = CHR ''d'' \<longleftrightarrow> c = CHR ''d'' \<or> c = CHR ''D''"
  unfolding char_eq_nat[of _ "CHR ''d''"] char_eq_nat[of _ "CHR ''D''"] of_char_toLowerCase_char
  by (auto simp: Let_def)

lemma lower_f: "toLowerCase_char c = CHR ''f'' \<longleftrightarrow> c = CHR ''f'' \<or> c = CHR ''F''"
  unfolding char_eq_nat[of _ "CHR ''f''"] char_eq_nat[of _ "CHR ''F''"] of_char_toLowerCase_char
  by (auto simp: Let_def)

lemma pdf_extension_iff:
  "pdf_extension s \<longleftrightarrow>
     (\<exists>pre c2 c3 c4. s = pre @ [CHR ''.'', c2, c3, c4] \<and> c2 \<in> {CHR ''p'', CHR ''P''}
        \<and> c3 \<in> {CHR ''d'', CHR ''D''} \<and> c4 \<in> {CHR ''f'', CHR ''F''})"
proof
  assume "pdf_extension s"
  then obtain c4 c3 c2 c1 rest where r: "rev s = c4 # c3 # c2 # c1 # rest"
    and c: "c1 = CHR ''.''" "c2 \<in> {CHR ''p'', CHR ''P''}" "c3 \<in> {CHR ''d'', CHR ''D''}"
      "c4 \<in> {CHR ''f'', CHR ''F''}"
    by (auto simp: pdf_extension_def split: list.splits)
  from r have "s = rev rest @ [c1, c2, c3, c4]"
    by (simp add: rev_swap)
  with c show "\<exists>pre c2 c3 c4. s = pre @ [CHR ''.'', c2, c3, c4] \<and> c2 \<in> {CHR ''p'', CHR ''P''}
        \<and> c3 \<in> {CHR ''d'', CHR ''D''} \<and> c4 \<in> {CHR ''f'', CHR ''F''}"
    by blast
next
  assume "\<exists>pre c2 c3 c4. s = pre @ [CHR ''.'', c2, c3, c4] \<and> c2 \<in> {CHR ''p'', CHR ''P''}
        \<and> c3 \<in> {CHR ''d'', CHR ''D''} \<and> c4 \<in> {CHR ''f'', CHR ''F''}"
  then show "pdf_extension s"
    by (auto simp: pdf_extension_def)
qed

lemma lower_eqs:
  "CHR ''.'' = toLowerCase_char c \<longleftrightarrow> c = CHR ''.''"
  "CHR ''p'' = toLowerCase_char c \<longleftrightarrow> c = CHR ''p'' \<or> c = CHR ''P''"
  "CHR ''d'' = toLowerCase_char c \<longleftrightarrow> c = CHR ''d'' \<or> c = CHR ''D''"
  "CHR ''f'' = toLowerCase_char c \<longleftrightarrow> c = CHR ''f'' \<or> c = CHR ''F''"
  using lower_dot[of c] lower_p[of c] lower_d[of c] lower_f[of c] by metis+

lemma endsWith_toLowerCase_pdf:
  "endsWith (toLowerCase s) ''.pdf'' \<longleftrightarrow> pdf_extension s"
proof
  assume "endsWith (toLowerCase s) ''.pdf''"
  then obtain t where "map toLowerCase_char s = t @ ''.pdf''"
    by (auto simp: endsWith_iff toLowerCase_def)
  then obtain pre c1 c2 c3 c4 where "s = pre @ [c1, c2, c3, c4]"
    and "CHR ''.'' = toLowerCase_char c1" "CHR ''p'' = toLowerCase_char c2"
      "CHR ''d'' = toLowerCase_char c3" "CHR ''f'' = toLowerCase_char c4"
    by (auto simp: map_eq_append_conv Cons_eq_map_conv)
  then show "pdf_extension s"
    unfolding pdf_extension_iff lower_eqs by blast
next
  assume "pdf_extension s"
  then obtain pre c2 c3 c4 where s: "s = pre @ [CHR ''.'', c2, c3, c4]"
    and c: "c2 \<in> {CHR ''p'', CHR ''P''}" "c3 \<in> {CHR ''d'', CHR ''D''}"
      "c4 \<in> {CHR ''f'', CHR ''F''}"
    unfolding pdf_extension_iff by blast
  have "toLowerCase_char (CHR ''.'') = CHR ''.''" "toLowerCase_char c2 = CHR ''p''"
    "toLowerCase_char c3 = CHR ''d''" "toLowerCase_char c4 = CHR ''f''"
    using c by (simp_all add: lower_dot lower_p lower_d lower_f)
  then have "toLowerCase s = map toLowerCase_char pre @ ''.pdf''"
    by (simp add: s toLowerCase_def)
  then show "endsWith (toLowerCase s) ''.pdf''"
    unfolding endsWith_iff by blast
qed

lemma messages_distinct: "INVALID_TYPE \<noteq> FILE_TOO_LARGE"
  by (simp add: INVALID_TYPE_def FILE_TOO_LARGE_def)

lemma includes_str_iff: "includes_str s p \<longleftrightarrow> (\<exists>pre post. s = pre @ p @ post)"
proof (induction s)
  case Nil
  then show ?case by auto
next
  case (Cons c cs)
  show ?case
  proof
    assume "includes_str (c # cs) p"
    then consider "startsWith (c # cs) p" | "includes_str cs p" by auto
    then show "\<exists>pre post. c # cs = pre @ p @ post"
    proof cases
      case 1
      then obtain t where "c # cs = [] @ p @ t" by (auto simp: startsWith_iff)
      then show ?thesis by blast
    next
      case 2
      with Cons.IH obtain pre post where "cs = pre @ p @ post" by blast
      then have "c # cs = (c # pre) @ p @ post" by simp
      then show ?thesis by blast
    qed
  next
    assume "\<exists>pre post. c # cs = pre @ p @ post"
    then obtain pre post where d: "c # cs = pre @ p @ post" by blast
    show "includes_str (c # cs) p"
    proof (cases pre)
      case Nil
      with d have "startsWith (c # cs) p" by (auto simp: startsWith_iff)
      then show ?thesis by simp
    next
      case (Cons a pre')
      with d have "cs = pre' @ p @ post" by simp
      with Cons.IH have "includes_str cs p" by blast
      then show ?thesis by simp
    qed
  qed
qed

lemma replace_prefix: "replace (p @ t) p r = r @ t"
proof (cases "p @ t")
  case Nil
  then show ?thesis by simp
next
  case (Cons a list)
  have "startsWith (a # list) p"
    unfolding Cons[symmetric] by (simp add: startsWith_def)
  then have "replace (a # list) p r = r @ drop (length p) (a # list)" by simp
  then show ?thesis unfolding Cons[symmetric] by simp
qed

lemma replace_absent: "\<not> includes_str s p \<Longrightarrow> replace s p r = s"
  by (induction s) auto

lemma replace_first:
  "(\<forall>k<length pre. \<not> startsWith (drop k (pre @ p @ post)) p) \<Longrightarrow>
     replace (pre @ p @ post) p r = pre @ r @ post"
proof (induction pre)
  case Nil
  then show ?case by (simp add: replace_prefix)
next
  case (Cons c pre)
  from Cons.prems have "\<not> startsWith (drop 0 ((c # pre) @ p @ post)) p" by blast
  then have h: "\<not> startsWith (c # pre @ p @ post) p" by simp
  have "\<forall>k<length pre. \<not> startsWith (drop k (pre @ p @ post)) p"
  proof (intro allI impI)
    fix k assume "k < length pre"
    then have "Suc k < length (c # pre)" by simp
    with Cons.prems have "\<not> startsWith (drop (Suc k) ((c # pre) @ p @ post)) p" by blast
    then show "\<not> startsWith (drop k (pre @ p @ post)) p" by simp
  qed
  with Cons.IH have "replace (pre @ p @ post) p r = pre @ r @ post" by blast
  with h show ?case by simp
qed

section \<open>The file validator\<close>

text \<open>
  Claim C4. For every candidate file, \<open>validateFile\<close> rejects with the invalid-type message
  exactly when the name does not end with \<^verbatim>\<open>.pdf\<close> in some mix of upper and lower case
  (whatever the size: the extension is checked first), rejects with the too-large message
  exactly when the name ends so and the size is strictly above 10,485,760 bytes, and
  accepts (returns \<^verbatim>\<open>null\<close>) exactly when the name ends so and the size is at most
  10,485,760. The validator is a function of the file alone: it reads no state and
  changes none.
\<close>

theorem validateFile_contract:
  "(validateFile f = Some INVALID_TYPE \<longleftrightarrow> \<not> pdf_extension (name f)) \<and>
   (validateFile f = Some FILE_TOO_LARGE \<longleftrightarrow> pdf_extension (name f) \<and> size' f > 10485760) \<and>
   (validateFile f = None \<longleftrightarrow> pdf_extension (name f) \<and> size' f \<le> 10485760)"
  using messages_distinct
  by (auto simp: validateFile_def endsWith_toLowerCase_pdf MAX_FILE_SIZE_def)

section \<open>The progress extractor\<close>

subsection \<open>The matcher finds the pattern, and nothing else\<close>


























subsection \<open>Decimal digits\<close>






subsection \<open>The contract\<close>




section \<open>The error classifier of the upload component\<close>

text \<open>
  Claim C7, as the code has it. For every upload failure the classifier applies its rules in
  this order: an HTTP status of 413 gives the too-large message whatever the message text;
  otherwise the message text (the response's detail if it is not empty, else the error's
  message if it is not empty, else \<^verbatim>\<open>Unknown error\<close>) decides: a text containing
  \<^verbatim>\<open>corrupted\<close> gives the corrupted-file message, else one containing
  \<^verbatim>\<open>no text content\<close> gives the empty-file message, else one containing \<^verbatim>\<open>network\<close>
  gives the connection message; and when no rule matches the result is the message text
  itself. "Containing" is: the word stands somewhere in the text.
\<close>

theorem getErrorMessage_rules:
  "(response_status e = Some 413 \<longrightarrow> getErrorMessage e = FILE_TOO_LARGE) \<and>
   (response_status e \<noteq> Some 413 \<and> includes_str (errorMessage e) ''corrupted'' \<longrightarrow>
      getErrorMessage e = CORRUPTED_PDF) \<and>
   (response_status e \<noteq> Some 413 \<and> \<not> includes_str (errorMessage e) ''corrupted''
      \<and> includes_str (errorMessage e) ''no text content'' \<longrightarrow>
      getErrorMessage e = EMPTY_PDF) \<and>
   (response_status e \<noteq> Some 413 \<and> \<not> includes_str (errorMessage e) ''corrupted''
      \<and> \<not> includes_str (errorMessage e) ''no text content''
      \<and> includes_str (errorMessage e) ''network'' \<longrightarrow>
      getErrorMessage e = CONNECTION_ERROR) \<and>
   (response_status e \<noteq> Some 413 \<and> \<not> includes_str (errorMessage e) ''corrupted''
      \<and> \<not> includes_str (errorMessage e) ''no text content''
      \<and> \<not> includes_str (errorMessage e) ''network'' \<longrightarrow>
      getErrorMessage e = errorMessage e) \<and>
   (includes_str (errorMessage e) w \<longleftrightarrow> (\<exists>pre post. errorMessage e = pre @ w @ post))"
  by (simp add: getErrorMessage_def includes_str_iff)

theorem getErrorMessage_rules_witness:
  "getErrorMessage \<lparr>response_status = Some 413, response_detail = None,
      message = Some ''corrupted network''\<rparr> = FILE_TOO_LARGE \<and>
   getErrorMessage \<lparr>response_status = Some 500, response_detail = Some ''file is corrupted'',
      message = Some ''network''\<rparr> = CORRUPTED_PDF \<and>
   getErrorMessage \<lparr>response_status = None, response_detail = None,
      message = Some ''no text content on the network''\<rparr> = EMPTY_PDF \<and>
   getErrorMessage \<lparr>response_status = None, response_detail = Some [],
      message = Some ''network down''\<rparr> = CONNECTION_ERROR \<and>
   getErrorMessage \<lparr>response_status = None, response_detail = None,
      message = Some ''API request failed: boom''\<rparr> = ''API request failed: boom''"
proof -
  let ?e1 = "\<lparr>response_status = Some 413, response_detail = None,
      message = Some ''corrupted network''\<rparr>"
  let ?e2 = "\<lparr>response_status = Some 500, response_detail = Some ''file is corrupted'',
      message = Some ''network''\<rparr>"
  let ?e3 = "\<lparr>response_status = None, response_detail = None,
      message = Some ''no text content on the network''\<rparr>"
  let ?e4 = "\<lparr>response_status = None, response_detail = Some [],
      message = Some ''network down''\<rparr>"
  let ?e5 = "\<lparr>response_status = None, response_detail = None,
      message = Some ''API request failed: boom''\<rparr>"
  have m: "errorMessage ?e2 = ''file is corrupted''"
    "errorMessage ?e3 = ''no text content on the network''"
    "errorMessage ?e4 = ''network down''"
    "errorMessage ?e5 = ''API request failed: boom''"
    by (simp_all add: errorMessage_def or_else_def)
  have i: "includes_str ''file is corrupted'' ''corrupted''"
    "\<not> includes_str ''no text content on the network'' ''corrupted''"
    "includes_str ''no text content on the network'' ''no text content''"
    "\<not> includes_str ''network down'' ''corrupted''"
    "\<not> includes_str ''network down'' ''no text content''"
    "includes_str ''network down'' ''network''"
    "\<not> includes_str ''API request failed: boom'' ''corrupted''"
    "\<not> includes_str ''API request failed: boom'' ''no text content''"
    "\<not> includes_str ''API request failed: boom'' ''network''"
    by (simp_all add: startsWith_def)
  show ?thesis
    using getErrorMessage_rules[of ?e1 "[]"] getErrorMessage_rules[of ?e2 "[]"]
      getErrorMessage_rules[of ?e3 "[]"] getErrorMessage_rules[of ?e4 "[]"]
      getErrorMessage_rules[of ?e5 "[]"]
    by (simp del: includes_str.simps add: m i)
qed

text \<open>
  Claim C7 as stated fails in its last clause: with no rule matching, the upload classifier
  does not fall back to one generic server-error message. Two failures with the texts
  \<^verbatim>\<open>boom\<close> and \<^verbatim>\<open>bang\<close> are classified as \<^verbatim>\<open>boom\<close> and \<^verbatim>\<open>bang\<close>: the text itself, which
  is neither the generic message of the question form nor the upload-failed message.
\<close>

theorem getErrorMessage_fallback_counterexample:
  "getErrorMessage \<lparr>response_status = Some 500, response_detail = None,
      message = Some ''boom''\<rparr> = ''boom'' \<and>
   getErrorMessage \<lparr>response_status = Some 500, response_detail = None,
      message = Some ''bang''\<rparr> = ''bang'' \<and>
   ''boom'' \<noteq> SERVER_ERROR \<and> ''boom'' \<noteq> UPLOAD_FAILED"
  by (simp add: getErrorMessage_def errorMessage_def or_else_def startsWith_def
      SERVER_ERROR_def UPLOAD_FAILED_def)


section \<open>Failures of the transport layer\<close>







section \<open>Deleting the current document\<close>

lemma delete_fails_example:
  "deleteDocument (Resolves \<lparr>status = 500, json = Inr (JObj [])\<rparr>)
     = Inl (JsError ''API request failed: HTTP error! status: 500'')"
proof -
  have "show_nat 500 = ''500''" by code_simp
  then show ?thesis
    by (simp add: deleteDocument_def fetchWithErrorHandling_def try_block_def ok_def
        error_text_def or_js_def)
qed

lemma delete_succeeds_example:
  "deleteDocument (Resolves \<lparr>status = 204, json = Inl (JsError ''Unexpected end of JSON input'')\<rparr>)
     = Inr ()"
  by (simp add: deleteDocument_def fetchWithErrorHandling_def try_block_def ok_def)

text \<open>
  Claim C9. With a current document \<open>d\<close>: when the delete request fails, the handler leaves
  the current document (and with it the document's last known status) as it was, changes
  nothing of the state but \<open>isDeleting\<close>, which is false again, and shows the failure to the
  user with \<^verbatim>\<open>alert\<close>; when the request succeeds it clears the current document, so that the
  application shows the upload component afresh; and the current document is cleared
  only by a delete that succeeded. Without a current document the handler does nothing.
\<close>

theorem handleDeleteDocument_contract:
  "(currentDocument st = Some d \<and> deleteDocument fo = Inl t \<longrightarrow>
      currentDocument (fst (handleDeleteDocument st fo)) = Some d
      \<and> snd (handleDeleteDocument st fo) = [''Failed to delete document. Please try again.'']
      \<and> fst (handleDeleteDocument st fo) = st\<lparr>isDeleting := False\<rparr>) \<and>
   (currentDocument st = Some d \<and> deleteDocument fo = Inr () \<longrightarrow>
      fst (handleDeleteDocument st fo) = st\<lparr>currentDocument := None, isDeleting := False\<rparr>
      \<and> snd (handleDeleteDocument st fo) = []) \<and>
   (currentDocument st = Some d \<and> currentDocument (fst (handleDeleteDocument st fo)) = None \<longrightarrow>
      deleteDocument fo = Inr ()) \<and>
   (currentDocument st = None \<longrightarrow> handleDeleteDocument st fo = (st, []))"
  by (auto simp: handleDeleteDocument_def Let_def split: sum.splits)

theorem handleDeleteDocument_contract_witness:
  "(let st = \<lparr>currentDocument = Some (JObj [(''document_id'', JStr ''abc''), (''status'', JStr ''completed'')]),
               isDeleting = False, showMetadata = True\<rparr>;
        failing = Resolves \<lparr>status = 500, json = Inr (JObj [])\<rparr>;
        succeeding = Resolves \<lparr>status = 204, json = Inl (JsError ''Unexpected end of JSON input'')\<rparr>
    in deleteDocument failing = Inl (JsError ''API request failed: HTTP error! status: 500'')
       \<and> handleDeleteDocument st failing
           = (st, [''Failed to delete document. Please try again.''])
       \<and> deleteDocument succeeding = Inr ()
       \<and> handleDeleteDocument st succeeding = (st\<lparr>currentDocument := None\<rparr>, [])
       \<and> handleDeleteDocument (st\<lparr>currentDocument := None\<rparr>) failing
           = (st\<lparr>currentDocument := None\<rparr>, []))"
proof -
  let ?d = "JObj [(''document_id'', JStr ''abc''), (''status'', JStr ''completed'')]"
  let ?st = "\<lparr>currentDocument = Some ?d, isDeleting = False, showMetadata = True\<rparr>"
  let ?f = "Resolves \<lparr>status = 500, json = Inr (JObj [])\<rparr>"
  let ?s = "Resolves \<lparr>status = 204, json = Inl (JsError ''Unexpected end of JSON input'')\<rparr>"
  have a: "handleDeleteDocument ?st ?f = (?st, [''Failed to delete document. Please try again.''])"
    using handleDeleteDocument_contract[of ?st ?d ?f "JsError ''API request failed: HTTP error! status: 500''"]
      delete_fails_example
    by (simp add: prod_eq_iff)
  have b: "handleDeleteDocument ?st ?s = (?st\<lparr>currentDocument := None\<rparr>, [])"
    using handleDeleteDocument_contract[of ?st ?d ?s] delete_succeeds_example
    by (simp add: prod_eq_iff)
  have c: "handleDeleteDocument (?st\<lparr>currentDocument := None\<rparr>) ?f = (?st\<lparr>currentDocument := None\<rparr>, [])"
    using handleDeleteDocument_contract[of "?st\<lparr>currentDocument := None\<rparr>" _ ?f]
    by simp
  from a b c delete_fails_example delete_succeeds_example show ?thesis
    by (simp add: Let_def)
qed


section \<open>One status check\<close>

lemma error_not_completed: "startsWith s ''error'' \<Longrightarrow> s \<noteq> ''completed''"
  by (auto simp: startsWith_def)

lemma checkStatus_error:
  assumes "get_prop v ''status'' = Some (JStr s)" "startsWith s ''error''"
  shows "checkStatus c (Inr v) st
     = (st\<lparr>isUploading := False, error := Some (replace s ''error: '' [])\<rparr>, None, None)"
  using assms error_not_completed[OF assms(2)] by (simp add: checkStatus_def)

lemma get_prop_report: "get_prop (JObj [(''status'', JStr s)]) ''status'' = Some (JStr s)"
  by simp

lemma checkStatus_pending_report:
  assumes "get_prop v ''status'' = Some (JStr s)" "s \<noteq> ''completed''" "\<not> startsWith s ''error''"
    "c < MAX_RETRIES"
  shows "checkStatus c (Inr v) st
     = ((case parseProgressFromStatus s of
           Some progress \<Rightarrow> st\<lparr>progressPercent := progress\<rparr> | None \<Rightarrow> st)
          \<lparr>uploadProgress := s, retryCount := retryCount st + 1\<rparr>, None, Some RETRY_INTERVAL)"
  using assms by (simp add: checkStatus_def Let_def split: option.splits)

subsection \<open>A status that begins with error\<close>

text \<open>
  Claim C6, as the code has it. For every status answer whose status string begins with
  \<^verbatim>\<open>error\<close>, the check sets no timer, so polling stops, and the upload ends as failed:
  \<open>isUploading\<close> is false and the error shown is the status with the first occurrence of
  \<^verbatim>\<open>error: \<close> taken out. For a status that begins with \<^verbatim>\<open>error: \<close> that is the status
  without this prefix; a status in which \<^verbatim>\<open>error: \<close> first stands further on loses it
  there; one without \<^verbatim>\<open>error: \<close> is shown whole. The status
  \<^verbatim>\<open>error: model unavailable\<close> gives the message \<^verbatim>\<open>model unavailable\<close>.
\<close>

theorem checkStatus_error_status:
  "(get_prop v ''status'' = Some (JStr s) \<and> startsWith s ''error'' \<longrightarrow>
      checkStatus c (Inr v) st
        = (st\<lparr>isUploading := False, error := Some (replace s ''error: '' [])\<rparr>, None, None)
      \<and> poll c (Inr v # rest) st
        = (st\<lparr>isUploading := False, error := Some (replace s ''error: '' [])\<rparr>, 1, False)) \<and>
   replace (''error: '' @ m) ''error: '' [] = m \<and>
   ((\<forall>k<length pre. \<not> startsWith (drop k (pre @ ''error: '' @ post)) ''error: '') \<longrightarrow>
      replace (pre @ ''error: '' @ post) ''error: '' [] = pre @ post) \<and>
   (\<not> includes_str s ''error: '' \<longrightarrow> replace s ''error: '' [] = s) \<and>
   checkStatus c (report ''error: model unavailable'') st
     = (st\<lparr>isUploading := False, error := Some ''model unavailable''\<rparr>, None, None)"
proof -
  have a: "get_prop v ''status'' = Some (JStr s) \<and> startsWith s ''error'' \<longrightarrow>
      checkStatus c (Inr v) st
        = (st\<lparr>isUploading := False, error := Some (replace s ''error: '' [])\<rparr>, None, None)
      \<and> poll c (Inr v # rest) st
        = (st\<lparr>isUploading := False, error := Some (replace s ''error: '' [])\<rparr>, 1, False)"
    by (simp add: checkStatus_error)
  have b: "replace (''error: '' @ m) ''error: '' [] = m"
    using replace_prefix[of "''error: ''" m "[]"] by simp
  have c: "(\<forall>k<length pre. \<not> startsWith (drop k (pre @ ''error: '' @ post)) ''error: '') \<longrightarrow>
      replace (pre @ ''error: '' @ post) ''error: '' [] = pre @ post"
    using replace_first[of pre "''error: ''" post "[]"] by simp
  have d: "\<not> includes_str s ''error: '' \<longrightarrow> replace s ''error: '' [] = s"
    by (simp add: replace_absent)
  have e: "checkStatus c (report ''error: model unavailable'') st
     = (st\<lparr>isUploading := False, error := Some ''model unavailable''\<rparr>, None, None)"
    using checkStatus_error[of "JObj [(''status'', JStr ''error: model unavailable'')]"
        "''error: model unavailable''" c st]
      replace_prefix[of "''error: ''" "''model unavailable''" "[]"]
    by (simp add: report_def startsWith_def)
  from a b c d e show ?thesis by blast
qed

theorem checkStatus_error_status_witness:
  "startsWith ''error: model unavailable'' ''error'' \<and>
   poll 0 (report ''error: model unavailable'' # [report ''completed'']) initial_uploader
     = (initial_uploader\<lparr>isUploading := False, error := Some ''model unavailable''\<rparr>, 1, False) \<and>
   replace (''errors '' @ ''error: '' @ ''x'') ''error: '' [] = ''errors '' @ ''x'' \<and>
   \<not> includes_str ''error'' ''error: '' \<and>
   replace ''error'' ''error: '' [] = ''error''"
proof -
  let ?v = "JObj [(''status'', JStr ''error: model unavailable'')]"
  have h1: "startsWith ''error: model unavailable'' ''error''"
    by (simp add: startsWith_def)
  have h2: "\<forall>k<length ''errors ''. \<not> startsWith (drop k (''errors '' @ ''error: '' @ ''x'')) ''error: ''"
    by (simp add: startsWith_def All_less_Suc eval_nat_numeral)
  have h3: "\<not> includes_str ''error'' ''error: ''"
    by (simp add: startsWith_def)
  have r: "replace ''error: model unavailable'' ''error: '' [] = ''model unavailable''"
    by (simp add: startsWith_def)
  have a: "poll 0 (report ''error: model unavailable'' # [report ''completed'']) initial_uploader
     = (initial_uploader\<lparr>isUploading := False, error := Some ''model unavailable''\<rparr>, 1, False)"
    using checkStatus_error_status[of ?v "''error: model unavailable''" 0 initial_uploader
        "[report ''completed'']"] h1 r
    unfolding report_def by (simp del: replace.simps poll.simps)
  have b: "replace (''errors '' @ ''error: '' @ ''x'') ''error: '' [] = ''errors '' @ ''x''"
    using checkStatus_error_status[where pre = "''errors ''" and post = "''x''"] h2 by blast
  have c: "replace ''error'' ''error: '' [] = ''error''"
    using checkStatus_error_status[where s = "''error''"] h3 by blast
  from h1 a b h3 c show ?thesis by blast
qed

text \<open>
  Claim C6 as stated fails for a status that begins with \<^verbatim>\<open>error\<close> but not with
  \<^verbatim>\<open>error: \<close>: for \<^verbatim>\<open>errors error: x\<close> the message is \<^verbatim>\<open>errors x\<close>, which is neither the
  status nor what is left of it after taking away a prefix.
\<close>

theorem checkStatus_error_status_counterexample:
  "startsWith ''errors error: x'' ''error'' \<and>
   \<not> startsWith ''errors error: x'' ''error: '' \<and>
   checkStatus 0 (report ''errors error: x'') initial_uploader
     = (initial_uploader\<lparr>isUploading := False, error := Some ''errors x''\<rparr>, None, None) \<and>
   ''errors x'' \<noteq> ''errors error: x'' \<and>
   \<not> endsWith ''errors error: x'' ''errors x''"
  by (simp add: checkStatus_def report_def startsWith_def endsWith_def)


subsection \<open>A status request that fails\<close>

text \<open>
  Claim C3, as the code has it. A status request that fails in transport does not end the
  upload at once. When the retry count the check reads is below 30, the check adds exactly
  one to the retry counter and sets the timer for the next check after 2000 ms; the
  counter is the one that a still-processing status adds to. When the count it reads has
  reached 30, the upload ends as failed with the message \<^verbatim>\<open>Failed to process document\<close>.
\<close>

theorem checkStatus_transport_failure:
  "(c < 30 \<longrightarrow>
      checkStatus c (Inl t) st = (st\<lparr>retryCount := retryCount st + 1\<rparr>, None, Some 2000)) \<and>
   (30 \<le> c \<longrightarrow>
      checkStatus c (Inl t) st
        = (st\<lparr>isUploading := False, error := Some ''Failed to process document''\<rparr>, None, None)) \<and>
   (c < 30 \<and> get_prop v ''status'' = Some (JStr s) \<and> s \<noteq> ''completed''
      \<and> \<not> startsWith s ''error'' \<longrightarrow>
      retryCount (fst (checkStatus c (Inr v) st)) = retryCount st + 1
      \<and> snd (snd (checkStatus c (Inr v) st)) = Some 2000)"
proof -
  have a: "c < 30 \<longrightarrow>
      checkStatus c (Inl t) st = (st\<lparr>retryCount := retryCount st + 1\<rparr>, None, Some 2000)"
    by (simp add: checkStatus_def checkStatus_catch_def MAX_RETRIES_def RETRY_INTERVAL_def)
  have b: "30 \<le> c \<longrightarrow>
      checkStatus c (Inl t) st
        = (st\<lparr>isUploading := False, error := Some ''Failed to process document''\<rparr>, None, None)"
    by (simp add: checkStatus_def checkStatus_catch_def MAX_RETRIES_def PROCESSING_FAILED_def)
  have c: "c < 30 \<and> get_prop v ''status'' = Some (JStr s) \<and> s \<noteq> ''completed''
      \<and> \<not> startsWith s ''error'' \<longrightarrow>
      retryCount (fst (checkStatus c (Inr v) st)) = retryCount st + 1
      \<and> snd (snd (checkStatus c (Inr v) st)) = Some 2000"
    by (auto simp: checkStatus_pending_report MAX_RETRIES_def RETRY_INTERVAL_def
        split: option.splits)
  from a b c show ?thesis by blast
qed

theorem checkStatus_transport_failure_witness:
  "checkStatus 0 (Inl (JsError ''API request failed: Failed to fetch'')) initial_uploader
     = (initial_uploader\<lparr>retryCount := 1\<rparr>, None, Some 2000) \<and>
   checkStatus 30 (Inl (JsError ''API request failed: Failed to fetch'')) initial_uploader
     = (initial_uploader\<lparr>isUploading := False, error := Some ''Failed to process document''\<rparr>,
        None, None) \<and>
   retryCount (fst (checkStatus 0 (report ''processing: extracting text (10%)'') initial_uploader)) = 1 \<and>
   snd (snd (checkStatus 0 (report ''processing: extracting text (10%)'') initial_uploader)) = Some 2000"
proof -
  let ?t = "JsError ''API request failed: Failed to fetch''"
  let ?s = "''processing: extracting text (10%)''"
  have a: "checkStatus 0 (Inl ?t) initial_uploader
     = (initial_uploader\<lparr>retryCount := 1\<rparr>, None, Some 2000)"
    using checkStatus_transport_failure[of 0 ?t initial_uploader]
    by (simp add: initial_uploader_def)
  have b: "checkStatus 30 (Inl ?t) initial_uploader
     = (initial_uploader\<lparr>isUploading := False, error := Some ''Failed to process document''\<rparr>,
        None, None)"
    using checkStatus_transport_failure[of 30 ?t initial_uploader]
    by simp
  have "?s \<noteq> ''completed''" "\<not> startsWith ?s ''error''"
    by (simp_all add: startsWith_def)
  then have c: "retryCount (fst (checkStatus 0 (report ?s) initial_uploader)) = 1 \<and>
      snd (snd (checkStatus 0 (report ?s) initial_uploader)) = Some 2000"
    using checkStatus_transport_failure[of 0 _ initial_uploader "JObj [(''status'', JStr ?s)]" ?s]
    unfolding report_def by (simp add: initial_uploader_def)
  from a b c show ?thesis by blast
qed

section \<open>The polling loop\<close>

lemma checkStatus_keeps_polling:
  assumes "c < MAX_RETRIES" "keeps_polling res"
  shows "\<exists>st'. checkStatus c res st = (st', None, Some RETRY_INTERVAL)
      \<and> retryCount st' = retryCount st + 1 \<and> isUploading st' = isUploading st
      \<and> error st' = error st"
  using assms
  by (auto simp: checkStatus_def checkStatus_catch_def keeps_polling_def Let_def
      split: sum.splits option.splits jsval.splits)

lemma poll_below_budget:
  "c < MAX_RETRIES \<Longrightarrow> list_all keeps_polling rs \<Longrightarrow>
     snd (poll c rs st) = (length rs, True)
     \<and> retryCount (fst (poll c rs st)) = retryCount st + length rs
     \<and> isUploading (fst (poll c rs st)) = isUploading st
     \<and> error (fst (poll c rs st)) = error st"
proof (induction rs arbitrary: st)
  case Nil
  then show ?case by simp
next
  case (Cons r rs)
  from Cons.prems have k: "keeps_polling r" and ks: "list_all keeps_polling rs" by simp_all
  from checkStatus_keeps_polling[OF Cons.prems(1) k, of st] obtain st' where
    s: "checkStatus c r st = (st', None, Some RETRY_INTERVAL)"
    and f: "retryCount st' = retryCount st + 1" "isUploading st' = isUploading st"
      "error st' = error st" by blast
  obtain st'' n b where p: "poll c rs st' = (st'', n, b)"
    by (cases "poll c rs st'") auto
  from Cons.IH[OF Cons.prems(1) ks, of st'] f s p show ?case
    by simp
qed


lemma validateFile_report_pdf:
  "validateFile \<lparr>name = ''report.pdf'', size' = 2097152\<rparr> = None"
  by (simp add: validateFile_def endsWith_toLowerCase_pdf pdf_extension_def MAX_FILE_SIZE_def)

lemma poll_replicate_rejected:
  "c < MAX_RETRIES \<Longrightarrow>
     poll c (replicate n (Inl t)) st = (st\<lparr>retryCount := retryCount st + n\<rparr>, n, True)"
proof (induction n arbitrary: st)
  case 0
  then show ?case by simp
next
  case (Suc n)
  then show ?case
    by (simp add: checkStatus_def checkStatus_catch_def)
qed

lemma poll_replicate_report:
  assumes "c < MAX_RETRIES" "s \<noteq> ''completed''" "\<not> startsWith s ''error''"
    "parseProgressFromStatus s = Some p"
  shows "poll c (replicate (Suc n) (report s)) st
     = (st\<lparr>uploadProgress := s, progressPercent := p, retryCount := retryCount st + Suc n\<rparr>,
        Suc n, True)"
proof (induction n arbitrary: st)
  case 0
  show ?case
    using checkStatus_pending_report[OF get_prop_report assms(2,3,1), of st] assms(4)
    by (simp add: report_def)
next
  case (Suc n)
  have "poll c (replicate (Suc (Suc n)) (report s)) st
      = (case poll c (replicate (Suc n) (report s))
               (st\<lparr>progressPercent := p, uploadProgress := s, retryCount := retryCount st + 1\<rparr>) of
           (st'', k, scheduled) \<Rightarrow> (st'', Suc k, scheduled))"
    using checkStatus_pending_report[OF get_prop_report assms(2,3,1), of st] assms(4)
    by (simp add: report_def)
  then show ?case
    unfolding Suc.IH by simp
qed

lemma progress_10: "parseProgressFromStatus ''processing: extracting text (10%)'' = Some (1 / 10)"
  by code_simp

text \<open>
  Claim C1 says that an upload whose status answers are never \<^verbatim>\<open>completed\<close> and never
  begin with \<^verbatim>\<open>error\<close> stops after exactly 30 attempts with a timeout. The code does
  not: every check of one upload reads the \<^verbatim>\<open>retryCount\<close> of the render in which the
  file was selected, which the 30 is compared with, while the counter that grows is the
  state variable. In a fresh component, with the file \<^verbatim>\<open>report.pdf\<close> of 2 MiB uploaded and
  31 answers \<^verbatim>\<open>processing: extracting text (10%)\<close>, all 31 status requests are made, the
  counter stands at 31, no error is set and the next check is scheduled.
\<close>

theorem budget_never_exhausted_example:
  "handleFileUpload initial_uploader (Some \<lparr>name = ''report.pdf'', size' = 2097152\<rparr>)
       UploadReturned (replicate 31 (report ''processing: extracting text (10%)''))
     = (\<lparr>isUploading = True, uploadProgress = ''processing: extracting text (10%)'',
          progressPercent = 1 / 10, retryCount = 31, error = None\<rparr>, 31, True)"
proof -
  have "poll 0 (replicate (Suc 30) (report ''processing: extracting text (10%)''))
      \<lparr>isUploading = True, uploadProgress = ''Uploading document...'',
         progressPercent = 1 / 10, retryCount = 0, error = None\<rparr>
     = (\<lparr>isUploading = True, uploadProgress = ''processing: extracting text (10%)'',
          progressPercent = 1 / 10, retryCount = 31, error = None\<rparr>, 31, True)"
    by (subst poll_replicate_report[where p = "1 / 10"])
       (simp_all add: MAX_RETRIES_def startsWith_def progress_10)
  then show ?thesis
    by (simp add: handleFileUpload_def validateFile_report_pdf initial_uploader_def)
qed

text \<open>
  Claim C3 as stated fails in its last clause. After 30 status requests that all failed in
  transport a fresh upload has not ended: the next check is scheduled and no error is
  set. And where a check that reads the count 30 meets a failed request, the message is
  the processing-failed one, not the timeout.
\<close>

theorem transport_failures_counterexample:
  "handleFileUpload initial_uploader (Some \<lparr>name = ''report.pdf'', size' = 2097152\<rparr>)
       UploadReturned (replicate 30 (Inl (JsError ''API request failed: Failed to fetch'')))
     = (\<lparr>isUploading = True, uploadProgress = ''Uploading document...'',
          progressPercent = 1 / 10, retryCount = 30, error = None\<rparr>, 30, True) \<and>
   checkStatus 30 (Inl (JsError ''API request failed: Failed to fetch''))
       (initial_uploader\<lparr>isUploading := True, retryCount := 30\<rparr>)
     = (initial_uploader\<lparr>isUploading := False, retryCount := 30,
          error := Some PROCESSING_FAILED\<rparr>, None, None) \<and>
   PROCESSING_FAILED \<noteq> PROCESSING_TIMEOUT"
  by (simp add: handleFileUpload_def validateFile_report_pdf initial_uploader_def
      poll_replicate_rejected MAX_RETRIES_def checkStatus_def checkStatus_catch_def
      PROCESSING_FAILED_def PROCESSING_TIMEOUT_def)

section \<open>Progress\<close>

lemma checkStatus_progress_cases:
  "progressPercent (fst (checkStatus c res st)) = progressPercent st
   \<or> progressPercent (fst (checkStatus c res st)) = 1
   \<or> (\<exists>v s ds. res = Inr v \<and> get_prop v ''status'' = Some (JStr s)
         \<and> regex_match s = Some ds
         \<and> progressPercent (fst (checkStatus c res st)) = of_nat (parseInt ds) / 100)"
  by (auto simp: checkStatus_def checkStatus_catch_def parseProgressFromStatus_def Let_def
      split: sum.splits option.splits jsval.splits)

lemma checkStatus_progress_nonneg:
  assumes "0 \<le> progressPercent st"
  shows "0 \<le> progressPercent (fst (checkStatus c res st))"
  using checkStatus_progress_cases[of c res st] assms by auto

lemma checkStatus_progress_le_1:
  assumes "progressPercent st \<le> 1" "percent_within res"
  shows "progressPercent (fst (checkStatus c res st)) \<le> 1"
  using checkStatus_progress_cases[of c res st] assms
  by (auto simp: percent_within_def)

lemma poll_progress_nonneg:
  "0 \<le> progressPercent st \<Longrightarrow> 0 \<le> progressPercent (fst (poll c rs st))"
proof (induction rs arbitrary: st)
  case Nil
  then show ?case by simp
next
  case (Cons r rs)
  from checkStatus_progress_nonneg[OF Cons.prems, of c r]
  have "0 \<le> progressPercent (fst (checkStatus c r st))" .
  with Cons.IH[of "fst (checkStatus c r st)"] show ?case
    by (auto split: prod.splits option.splits)
qed

lemma poll_progress_le_1:
  "progressPercent st \<le> 1 \<Longrightarrow> list_all percent_within rs \<Longrightarrow>
     progressPercent (fst (poll c rs st)) \<le> 1"
proof (induction rs arbitrary: st)
  case Nil
  then show ?case by simp
next
  case (Cons r rs)
  from Cons.prems have "percent_within r" "list_all percent_within rs" by simp_all
  with checkStatus_progress_le_1[OF Cons.prems(1), of r c] Cons.IH[of "fst (checkStatus c r st)"]
  show ?case
    by (auto split: prod.splits option.splits)
qed

text \<open>
  Claim C8, as the code has it. Each value a status check leaves as progress is the value
  before, or 1 (on completion), or the parsed percentage divided by 100; an upload starts
  it at 0 and 0.1. So the progress is never negative. The code sets no upper bound: the
  progress stays at or below 1 as long as no answer reports a percentage above 100.
\<close>

theorem progress_bounds:
  "(progressPercent (fst (checkStatus c res st)) = progressPercent st
    \<or> progressPercent (fst (checkStatus c res st)) = 1
    \<or> (\<exists>v s ds. res = Inr v \<and> get_prop v ''status'' = Some (JStr s)
         \<and> regex_match s = Some ds
         \<and> progressPercent (fst (checkStatus c res st)) = of_nat (parseInt ds) / 100)) \<and>
   (0 \<le> progressPercent st \<longrightarrow> 0 \<le> progressPercent (fst (poll c rs st))) \<and>
   (progressPercent st \<le> 1 \<and> list_all percent_within rs \<longrightarrow>
      progressPercent (fst (poll c rs st)) \<le> 1) \<and>
   0 \<le> progressPercent (fst (handleFileUpload st (Some f) upload rs)) \<and>
   (list_all percent_within rs \<longrightarrow>
      progressPercent (fst (handleFileUpload st (Some f) upload rs)) \<le> 1)"
proof -
  have h0: "0 \<le> progressPercent (fst (handleFileUpload st (Some f) upload rs))"
    by (auto simp: handleFileUpload_def Let_def poll_progress_nonneg
        split: option.splits upload_result.splits)
  have h1: "list_all percent_within rs \<longrightarrow>
      progressPercent (fst (handleFileUpload st (Some f) upload rs)) \<le> 1"
    by (auto simp: handleFileUpload_def Let_def poll_progress_le_1
        split: option.splits upload_result.splits)
  from checkStatus_progress_cases[of c res st] poll_progress_nonneg[of st c rs]
    poll_progress_le_1[of st rs c] h0 h1
  show ?thesis by blast
qed

theorem progress_bounds_witness:
  "list_all percent_within [report ''processing: extracting text (10%)'', Inl (JsError ''x''),
       report ''processing: extracting text (100%)''] \<and>
   progressPercent (fst (poll 0 [report ''processing: extracting text (10%)'', Inl (JsError ''x''),
       report ''processing: extracting text (100%)''] initial_uploader)) \<le> 1 \<and>
   0 \<le> progressPercent (fst (poll 0 [report ''processing: extracting text (10%)'', Inl (JsError ''x''),
       report ''processing: extracting text (100%)''] initial_uploader)) \<and>
   progressPercent (fst (handleFileUpload initial_uploader
       (Some \<lparr>name = ''report.pdf'', size' = 2097152\<rparr>) UploadReturned
       [report ''processing: extracting text (10%)'', Inl (JsError ''x''),
        report ''processing: extracting text (100%)''])) \<le> 1"
proof -
  let ?rs = "[report ''processing: extracting text (10%)'', Inl (JsError ''x''),
       report ''processing: extracting text (100%)'']"
  have w: "list_all percent_within ?rs"
    by (simp add: percent_within_def report_def) code_simp
  have i: "0 \<le> progressPercent initial_uploader" "progressPercent initial_uploader \<le> 1"
    by (simp_all add: initial_uploader_def)
  from progress_bounds[of 0 _ initial_uploader ?rs "\<lparr>name = ''report.pdf'', size' = 2097152\<rparr>"
      UploadReturned] w i
  show ?thesis by blast
qed

text \<open>
  Claim C8 as stated fails: the answer \<^verbatim>\<open>processing: extracting text (250%)\<close> leaves the
  progress at 2.5.
\<close>

theorem progress_above_one_counterexample:
  "handleFileUpload initial_uploader (Some \<lparr>name = ''report.pdf'', size' = 2097152\<rparr>)
       UploadReturned [report ''processing: extracting text (250%)'']
     = (\<lparr>isUploading = True, uploadProgress = ''processing: extracting text (250%)'',
          progressPercent = 5 / 2, retryCount = 1, error = None\<rparr>, 1, True) \<and>
   (5 / 2 :: rat) > 1"
proof -
  have p: "parseProgressFromStatus ''processing: extracting text (250%)'' = Some (5 / 2)"
    by code_simp
  have "checkStatus 0 (report ''processing: extracting text (250%)'')
      \<lparr>isUploading = True, uploadProgress = ''Uploading document...'',
         progressPercent = 1 / 10, retryCount = 0, error = None\<rparr>
     = (\<lparr>isUploading = True, uploadProgress = ''processing: extracting text (250%)'',
          progressPercent = 5 / 2, retryCount = 1, error = None\<rparr>, None, Some RETRY_INTERVAL)"
    unfolding report_def
    by (subst checkStatus_pending_report[OF get_prop_report])
       (simp_all add: MAX_RETRIES_def startsWith_def p)
  then show ?thesis
    by (simp add: handleFileUpload_def validateFile_report_pdf initial_uploader_def)
qed



section \<open>No cancellation\<close>

text \<open>
  The machine and \<open>poll\<close> are the same loop: as long as the loop goes on, the machine
  that starts with a check in flight reaches the state \<open>poll\<close> computes.
\<close>

lemma run_follows_poll:
  "snd (snd (poll c rs st)) \<Longrightarrow>
     run \<lparr>ui = st, phase = Checking c, calls = k\<rparr> (answers rs)
       = Some \<lparr>ui = fst (poll c rs st), phase = Checking c, calls = k + length rs\<rparr>"
proof (induction rs arbitrary: st k)
  case Nil
  then show ?case by simp
next
  case (Cons r rs)
  obtain st' doc tm where s: "checkStatus c r st = (st', doc, tm)"
    by (cases "checkStatus c r st") auto
  show ?case
  proof (cases tm)
    case None
    with s Cons.prems show ?thesis by simp
  next
    case (Some d)
    obtain st'' n b where p: "poll c rs st' = (st'', n, b)"
      by (cases "poll c rs st'") auto
    with s Some Cons.prems have "snd (snd (poll c rs st'))" by simp
    from Cons.IH[OF this, of "Suc k"] s Some p show ?thesis by simp
  qed
qed

lemma checkStatus_timer_keeps_uploading:
  "snd (snd (checkStatus c res st)) = Some d \<Longrightarrow>
     isUploading (fst (checkStatus c res st)) = isUploading st"
  by (auto simp: checkStatus_def checkStatus_catch_def Let_def
      split: sum.splits option.splits jsval.splits if_splits)

lemma step_keeps_invariant:
  assumes "uploading_while_active cfg" "enabled cfg ev"
  shows "uploading_while_active (step cfg ev)"
proof (cases ev)
  case (FileSelected sel)
  with assms show ?thesis
    by (cases sel) (auto simp: uploading_while_active_def Let_def split: option.splits)
next
  case (UploadSettles r)
  with assms show ?thesis
    by (auto simp: uploading_while_active_def split: phase.splits upload_result.splits)
next
  case TimerFires
  with assms show ?thesis
    by (auto simp: uploading_while_active_def split: phase.splits)
next
  case (StatusSettles res)
  with assms obtain c where c: "phase cfg = Checking c"
    by (auto split: phase.splits)
  with assms(1) have u: "isUploading (ui cfg)"
    by (simp add: uploading_while_active_def)
  obtain st' doc tm where k: "checkStatus c res (ui cfg) = (st', doc, tm)"
    by (cases "checkStatus c res (ui cfg)") auto
  show ?thesis
  proof (cases tm)
    case None
    with k c StatusSettles show ?thesis by (simp add: uploading_while_active_def)
  next
    case (Some d)
    with k checkStatus_timer_keeps_uploading[of c res "ui cfg" d] u
    have "isUploading st'" by simp
    with Some k c StatusSettles show ?thesis by (simp add: uploading_while_active_def)
  qed
qed

lemma run_keeps_invariant:
  "uploading_while_active cfg \<Longrightarrow> run cfg evs = Some cfg' \<Longrightarrow> uploading_while_active cfg'"
proof (induction evs arbitrary: cfg)
  case Nil
  then show ?case by simp
next
  case (Cons ev evs)
  from Cons.prems(2) have e: "enabled cfg ev" and r: "run (step cfg ev) evs = Some cfg'"
    by (auto split: if_splits)
  from Cons.IH[OF step_keeps_invariant[OF Cons.prems(1) e] r] show ?case .
qed

lemma reachable_invariant:
  "run initial_component evs = Some cfg \<Longrightarrow> uploading_while_active cfg"
  by (rule run_keeps_invariant[of initial_component])
     (simp_all add: uploading_while_active_def initial_component_def)

lemma scheduled_only_timer:
  assumes "uploading_while_active cfg" "phase cfg = Scheduled c" "enabled cfg ev"
  shows "ev = TimerFires"
  using assms by (cases ev) (auto simp: uploading_while_active_def)

lemma checking_only_answer:
  assumes "uploading_while_active cfg" "phase cfg = Checking c" "enabled cfg ev"
  shows "\<exists>res. ev = StatusSettles res"
  using assms by (cases ev) (auto simp: uploading_while_active_def)

lemma progress_20: "parseProgressFromStatus ''processing: extracting text (20%)'' = Some (1 / 5)"
  by code_simp

lemma checkStatus_example_10:
  "checkStatus 0 (report ''processing: extracting text (10%)'') st
     = (st\<lparr>progressPercent := 1 / 10, uploadProgress := ''processing: extracting text (10%)'',
           retryCount := retryCount st + 1\<rparr>, None, Some RETRY_INTERVAL)"
  unfolding report_def
  by (subst checkStatus_pending_report[OF get_prop_report])
     (simp_all add: MAX_RETRIES_def startsWith_def progress_10)

lemma checkStatus_example_20:
  "checkStatus 0 (report ''processing: extracting text (20%)'') st
     = (st\<lparr>progressPercent := 1 / 5, uploadProgress := ''processing: extracting text (20%)'',
           retryCount := retryCount st + 1\<rparr>, None, Some RETRY_INTERVAL)"
  unfolding report_def
  by (subst checkStatus_pending_report[OF get_prop_report])
     (simp_all add: MAX_RETRIES_def startsWith_def progress_20)

lemma run_example_scheduled:
  "run initial_component
       [FileSelected (Some \<lparr>name = ''report.pdf'', size' = 2097152\<rparr>),
        UploadSettles UploadReturned,
        StatusSettles (report ''processing: extracting text (10%)'')]
     = Some \<lparr>ui = \<lparr>isUploading = True, uploadProgress = ''processing: extracting text (10%)'',
                   progressPercent = 1 / 10, retryCount = 1, error = None\<rparr>,
              phase = Scheduled 0, calls = 1\<rparr>"
  by (simp add: initial_component_def initial_uploader_def validateFile_report_pdf
      checkStatus_example_10)

lemma run_example_checking:
  "run initial_component
       [FileSelected (Some \<lparr>name = ''report.pdf'', size' = 2097152\<rparr>),
        UploadSettles UploadReturned,
        StatusSettles (report ''processing: extracting text (10%)''),
        TimerFires]
     = Some \<lparr>ui = \<lparr>isUploading = True, uploadProgress = ''processing: extracting text (10%)'',
                   progressPercent = 1 / 10, retryCount = 1, error = None\<rparr>,
              phase = Checking 0, calls = 2\<rparr>"
  by (simp add: initial_component_def initial_uploader_def validateFile_report_pdf
      checkStatus_example_10)

text \<open>
  Claim C2, as the code has it. The component has no cancel operation. In every state it
  can reach with a check scheduled, the one event it accepts is the timer firing (the file
  input is disabled while an upload is under way, and the timer's handle is not kept), and
  the check then sends its status request. With a check in flight the one event is the
  answer to that request: its result is applied to the state, not dropped, and the next
  check is scheduled whenever the check sets its timer.
\<close>

theorem no_cancel_operation:
  "(run initial_component evs = Some cfg \<and> phase cfg = Scheduled c \<and> enabled cfg ev \<longrightarrow>
      ev = TimerFires
      \<and> step cfg ev = cfg\<lparr>phase := Checking c, calls := calls cfg + 1\<rparr>) \<and>
   (run initial_component evs = Some cfg \<and> phase cfg = Checking c \<and> enabled cfg ev \<longrightarrow>
      (\<exists>res. ev = StatusSettles res
         \<and> ui (step cfg ev) = fst (checkStatus c res (ui cfg))
         \<and> calls (step cfg ev) = calls cfg
         \<and> phase (step cfg ev)
             = (if snd (snd (checkStatus c res (ui cfg))) = None then Idle else Scheduled c)))"
proof -
  have a: "run initial_component evs = Some cfg \<and> phase cfg = Scheduled c \<and> enabled cfg ev \<longrightarrow>
      ev = TimerFires
      \<and> step cfg ev = cfg\<lparr>phase := Checking c, calls := calls cfg + 1\<rparr>"
  proof (intro impI, elim conjE)
    assume r: "run initial_component evs = Some cfg" and p: "phase cfg = Scheduled c"
      and e: "enabled cfg ev"
    from scheduled_only_timer[OF reachable_invariant[OF r] p e] have "ev = TimerFires" .
    with p show "ev = TimerFires
      \<and> step cfg ev = cfg\<lparr>phase := Checking c, calls := calls cfg + 1\<rparr>" by simp
  qed
  have b: "run initial_component evs = Some cfg \<and> phase cfg = Checking c \<and> enabled cfg ev \<longrightarrow>
      (\<exists>res. ev = StatusSettles res
         \<and> ui (step cfg ev) = fst (checkStatus c res (ui cfg))
         \<and> calls (step cfg ev) = calls cfg
         \<and> phase (step cfg ev)
             = (if snd (snd (checkStatus c res (ui cfg))) = None then Idle else Scheduled c))"
  proof (intro impI, elim conjE)
    assume r: "run initial_component evs = Some cfg" and p: "phase cfg = Checking c"
      and e: "enabled cfg ev"
    from checking_only_answer[OF reachable_invariant[OF r] p e] obtain res where
      ev: "ev = StatusSettles res" by blast
    obtain st' doc tm where k: "checkStatus c res (ui cfg) = (st', doc, tm)"
      by (cases "checkStatus c res (ui cfg)") auto
    have "ui (step cfg ev) = fst (checkStatus c res (ui cfg))
         \<and> calls (step cfg ev) = calls cfg
         \<and> phase (step cfg ev)
             = (if snd (snd (checkStatus c res (ui cfg))) = None then Idle else Scheduled c)"
      using ev p k by (cases tm) simp_all
    with ev show "\<exists>res. ev = StatusSettles res
         \<and> ui (step cfg ev) = fst (checkStatus c res (ui cfg))
         \<and> calls (step cfg ev) = calls cfg
         \<and> phase (step cfg ev)
             = (if snd (snd (checkStatus c res (ui cfg))) = None then Idle else Scheduled c)"
      by blast
  qed
  from a b show ?thesis by blast
qed


theorem no_cancel_operation_witness:
  "(let cfg = \<lparr>ui = \<lparr>isUploading = True, uploadProgress = ''processing: extracting text (10%)'',
                       progressPercent = 1 / 10, retryCount = 1, error = None\<rparr>,
                phase = Scheduled 0, calls = 1\<rparr>;
        cfg' = cfg\<lparr>phase := Checking 0, calls := 2\<rparr>
    in enabled cfg TimerFires \<and> step cfg TimerFires = cfg'
       \<and> enabled cfg' (StatusSettles (report ''processing: extracting text (20%)''))
       \<and> ui (step cfg' (StatusSettles (report ''processing: extracting text (20%)'')))
           = \<lparr>isUploading = True, uploadProgress = ''processing: extracting text (20%)'',
                progressPercent = 1 / 5, retryCount = 2, error = None\<rparr>
       \<and> phase (step cfg' (StatusSettles (report ''processing: extracting text (20%)'')))
           = Scheduled 0)"
proof -
  let ?evs = "[FileSelected (Some \<lparr>name = ''report.pdf'', size' = 2097152\<rparr>),
        UploadSettles UploadReturned,
        StatusSettles (report ''processing: extracting text (10%)'')]"
  let ?cfg = "\<lparr>ui = \<lparr>isUploading = True, uploadProgress = ''processing: extracting text (10%)'',
                       progressPercent = 1 / 10, retryCount = 1, error = None\<rparr>,
                phase = Scheduled 0, calls = 1\<rparr>"
  let ?cfg' = "\<lparr>ui = \<lparr>isUploading = True, uploadProgress = ''processing: extracting text (10%)'',
                       progressPercent = 1 / 10, retryCount = 1, error = None\<rparr>,
                phase = Checking 0, calls = 2\<rparr>"
  let ?ev = "StatusSettles (report ''processing: extracting text (20%)'')"
  have e1: "enabled ?cfg TimerFires" by simp
  have e2: "enabled ?cfg' ?ev" by simp
  have a: "step ?cfg TimerFires = ?cfg'"
    using no_cancel_operation[of ?evs ?cfg 0 TimerFires] run_example_scheduled e1
    by simp
  have b: "ui (step ?cfg' ?ev)
        = \<lparr>isUploading = True, uploadProgress = ''processing: extracting text (20%)'',
             progressPercent = 1 / 5, retryCount = 2, error = None\<rparr>
      \<and> phase (step ?cfg' ?ev) = Scheduled 0"
    using no_cancel_operation[of "?evs @ [TimerFires]" ?cfg' 0 ?ev] run_example_checking e2
      checkStatus_example_20
    by (simp del: step.simps run.simps enabled.simps)
  from e1 a e2 b show ?thesis by (simp add: Let_def del: step.simps enabled.simps)
qed

text \<open>
  Claim C2 as stated speaks of a cancel operation that keeps a scheduled check from firing
  and lets the result of a check in flight be dropped. There is none: after a first answer
  \<^verbatim>\<open>processing: extracting text (10%)\<close> the check is scheduled and no event but the timer
  firing is accepted; the timer fires, the second status request is sent, and its answer
  \<^verbatim>\<open>processing: extracting text (20%)\<close> is applied and schedules a third check.
\<close>

theorem no_cancel_counterexample:
  "run initial_component
       [FileSelected (Some \<lparr>name = ''report.pdf'', size' = 2097152\<rparr>),
        UploadSettles UploadReturned,
        StatusSettles (report ''processing: extracting text (10%)'')]
     = Some \<lparr>ui = \<lparr>isUploading = True, uploadProgress = ''processing: extracting text (10%)'',
                   progressPercent = 1 / 10, retryCount = 1, error = None\<rparr>,
              phase = Scheduled 0, calls = 1\<rparr> \<and>
   \<not> (\<exists>ev. enabled \<lparr>ui = \<lparr>isUploading = True,
                            uploadProgress = ''processing: extracting text (10%)'',
                            progressPercent = 1 / 10, retryCount = 1, error = None\<rparr>,
                      phase = Scheduled 0, calls = 1\<rparr> ev
          \<and> ev \<noteq> TimerFires) \<and>
   run initial_component
       [FileSelected (Some \<lparr>name = ''report.pdf'', size' = 2097152\<rparr>),
        UploadSettles UploadReturned,
        StatusSettles (report ''processing: extracting text (10%)''),
        TimerFires,
        StatusSettles (report ''processing: extracting text (20%)'')]
     = Some \<lparr>ui = \<lparr>isUploading = True, uploadProgress = ''processing: extracting text (20%)'',
                   progressPercent = 1 / 5, retryCount = 2, error = None\<rparr>,
              phase = Scheduled 0, calls = 2\<rparr>"
proof -
  let ?cfg = "\<lparr>ui = \<lparr>isUploading = True, uploadProgress = ''processing: extracting text (10%)'',
                       progressPercent = 1 / 10, retryCount = 1, error = None\<rparr>,
                phase = Scheduled 0, calls = 1\<rparr>"
  have "\<And>ev. enabled ?cfg ev \<Longrightarrow> ev = TimerFires"
    by (rule scheduled_only_timer[of ?cfg 0]) (simp_all add: uploading_while_active_def)
  then have n: "\<not> (\<exists>ev. enabled ?cfg ev \<and> ev \<noteq> TimerFires)" by blast
  have r: "run initial_component
       [FileSelected (Some \<lparr>name = ''report.pdf'', size' = 2097152\<rparr>),
        UploadSettles UploadReturned,
        StatusSettles (report ''processing: extracting text (10%)''),
        TimerFires,
        StatusSettles (report ''processing: extracting text (20%)'')]
     = Some \<lparr>ui = \<lparr>isUploading = True, uploadProgress = ''processing: extracting text (20%)'',
                   progressPercent = 1 / 5, retryCount = 2, error = None\<rparr>,
              phase = Scheduled 0, calls = 2\<rparr>"
    by (simp add: initial_component_def initial_uploader_def validateFile_report_pdf
        checkStatus_example_10 checkStatus_example_20)
  from run_example_scheduled n r show ?thesis by blast
qed


end
